theory Spec2Isabelle
  imports Complex_Main "HOL-Library.Multiset"
begin

section \<open>The divisive tree builder (model/auto\_attribute\_tree.py)\<close>

text \<open>
  Python exceptions are values. Only the classes that the modelled code can raise occur.
\<close>

datatype error =
  IndexError | KeyError | TypeError | ValueError | AttributeError | LinAlgError
  | UnboundLocalError

subsection \<open>Data\<close>

text \<open>
  An observation table is a list of rows; the first column is the row id, the remaining
  columns (the feature vector) are kept abstract, since the builder never looks into them.
\<close>

type_synonym ('i, 'f) table = "('i \<times> 'f) list"

text \<open>
  The automatic k-selection \<^verbatim>\<open>pamk\<close> is imported from a module that is not part of
  the sources; it is a parameter of the model. It returns a pair: a fitted estimator
  (of which the builder reads \<^verbatim>\<open>medoid_indices_\<close> and \<^verbatim>\<open>labels_\<close>, written here
  without the trailing underscore) and the chosen number of clusters. The generator state \<open>'o\<close> stands for \<^verbatim>\<open>random_state\<close>,
  which a call may advance. Labels, medoid positions and the chosen k are indices and
  counts, hence naturals.
\<close>

record pam_result =
  medoid_indices :: "nat list"
  labels :: "nat list"

type_synonym ('f, 'o) pamk = "'o \<Rightarrow> 'f list \<Rightarrow> int list \<Rightarrow> 'o \<times> (pam_result \<times> nat)"

record ('i, 'f) node =
  name :: nat
  parent_node :: "nat option"
  children_nodes :: "nat list"
  data :: "('i, 'f) table option"

definition Node :: "nat \<Rightarrow> nat option \<Rightarrow> ('i, 'f) table option \<Rightarrow> ('i, 'f) node" where
  "Node n p d = \<lparr>name = n, parent_node = p, children_nodes = [], data = d\<rparr>"

definition add_child :: "('i, 'f) node \<Rightarrow> nat \<Rightarrow> ('i, 'f) node" where
  "add_child nd child_node = nd\<lparr>children_nodes := children_nodes nd @ [child_node]\<rparr>"

definition del_data :: "('i, 'f) node \<Rightarrow> ('i, 'f) node" where
  "del_data nd = nd\<lparr>data := None\<rparr>"

text \<open>
  The fields of \<^verbatim>\<open>AutoAttributeTree\<close>. \<^verbatim>\<open>levels2nodes\<close> is a
  \<^verbatim>\<open>defaultdict(list)\<close>: an association list in insertion order.
  \<^verbatim>\<open>method\<close> and \<^verbatim>\<open>standard_scaler\<close> are constants of a build and are part of the
  parameters \<open>pamk\<close> and \<open>z_score\<close> below.
\<close>

record ('i, 'f, 'o) AutoAttributeTree =
  nodes :: "('i, 'f) node list"
  incomplete_nodes :: "nat list"
  medoids :: "(nat \<times> 'i) list"
  levels2nodes :: "(nat \<times> nat list) list"
  nodes2levels :: "nat \<rightharpoonup> nat"
  max_k :: int
  leaf_nodes_idx :: "nat list"
  random_state :: 'o

text \<open>The local variables of \<^verbatim>\<open>fit\<close> that live across iterations of its loop.\<close>

record ('i, 'f, 'o) fit_frame = "('i, 'f, 'o) AutoAttributeTree" +
  data_node :: "('i, 'f) table option"
  level :: nat

definition init :: "int \<Rightarrow> 'o \<Rightarrow> ('i, 'f, 'o) AutoAttributeTree" where
  "init mk rs = \<lparr>nodes = [], incomplete_nodes = [0], medoids = [], levels2nodes = [],
     nodes2levels = Map.empty, max_k = mk, leaf_nodes_idx = [], random_state = rs\<rparr>"

text \<open>\<^verbatim>\<open>d[k].append(v)\<close> on a \<^verbatim>\<open>defaultdict(list)\<close>.\<close>

fun dd_append :: "(nat \<times> nat list) list \<Rightarrow> nat \<Rightarrow> nat \<Rightarrow> (nat \<times> nat list) list" where
  "dd_append [] k v = [(k, [v])]"
| "dd_append ((k', vs) # m) k v =
     (if k' = k then (k', vs @ [v]) # m else (k', vs) # dd_append m k v)"

subsection \<open>\<^verbatim>\<open>level_pamk\<close>\<close>

text \<open>
  Returns the frames \<^verbatim>\<open>clusters\<close> (columns id, cluster) and \<^verbatim>\<open>medoids\<close>
  (columns cluster, id) as lists of rows, and the advanced generator. \<^verbatim>\<open>iloc\<close> with a
  position out of range raises IndexError; building a frame from columns of different
  lengths raises ValueError.
\<close>

definition level_pamk ::
  "('f, 'o) pamk \<Rightarrow> ('i, 'f) table \<Rightarrow> int \<Rightarrow> nat \<Rightarrow> 'o
     \<Rightarrow> error + (('i \<times> nat) list \<times> (nat \<times> 'i) list \<times> 'o)" where
  "level_pamk pamk dat mk offset rs =
     (let id_col = map fst dat;
          X = map snd dat;
          mk' = min (int (length dat) - 1) mk;
          (rs', pam_res) = pamk rs X [1..mk']
      in if snd pam_res \<noteq> 1 then
           (if \<exists>j \<in> set (medoid_indices (fst pam_res)). length id_col \<le> j
              then Inl IndexError
            else if length (medoid_indices (fst pam_res)) \<noteq> snd pam_res
              then Inl ValueError
            else if length (labels (fst pam_res)) \<noteq> length id_col
              then Inl ValueError
            else Inr (zip id_col (map (\<lambda>l. l + offset + 1) (labels (fst pam_res))),
                      zip [offset + 1 ..< offset + 1 + snd pam_res]
                          (map (\<lambda>j. id_col ! j) (medoid_indices (fst pam_res))),
                      rs'))
         else Inr ([], [], rs'))"

subsection \<open>\<^verbatim>\<open>AutoAttributeTree.fit\<close>\<close>

text \<open>
  \<^verbatim>\<open>data_node[mask]\<close>: the rows of the parent whose id is among the ids to which
  \<^verbatim>\<open>clustered_data\<close> gives cluster \<open>n\<close>. The mask is computed by id membership, not
  by position.
\<close>

definition masked :: "('i \<times> nat) list \<Rightarrow> ('i, 'f) table \<Rightarrow> nat \<Rightarrow> ('i, 'f) table" where
  "masked clustered_data dn n =
     filter (\<lambda>row. fst row \<in> set (map fst (filter (\<lambda>c. snd c = n) clustered_data))) dn"

text \<open>
  One pass of \<^verbatim>\<open>for n in list(medoids.cluster)\<close>: the child id is added to the
  parent's children, the child node is appended to the arena, and both level indices are
  updated.
\<close>

definition new_child ::
  "nat \<Rightarrow> ('i \<times> nat) list \<Rightarrow> ('i, 'f) table \<Rightarrow> nat \<Rightarrow> nat
     \<Rightarrow> ('i, 'f, 'o, 'z) AutoAttributeTree_scheme \<Rightarrow> ('i, 'f, 'o, 'z) AutoAttributeTree_scheme"
  where
  "new_child current_node_idx clustered_data dn lvl n s =
     s\<lparr>nodes := (nodes s)[current_node_idx := add_child (nodes s ! current_node_idx) n]
          @ [Node n (Some current_node_idx) (Some (masked clustered_data dn n))],
       levels2nodes := dd_append (levels2nodes s) (lvl + 1) n,
       nodes2levels := (nodes2levels s)(n \<mapsto> lvl + 1)\<rparr>"

text \<open>
  The branch \<^verbatim>\<open>if len(medoids) > 1\<close> of the loop body: the medoids are recorded,
  the new ids are queued, the children are created and the parent's data is released.
\<close>

definition split_node ::
  "nat \<Rightarrow> ('i \<times> nat) list \<Rightarrow> (nat \<times> 'i) list \<Rightarrow> ('i, 'f) table
     \<Rightarrow> ('i, 'f, 'o) fit_frame \<Rightarrow> ('i, 'f, 'o) fit_frame" where
  "split_node current_node_idx clustered_data meds dn s =
     (let s1 = s\<lparr>medoids := medoids s @ meds,
                 incomplete_nodes := incomplete_nodes s @ map fst meds\<rparr>;
          s2 = fold (new_child current_node_idx clustered_data dn (level s1)) (map fst meds) s1
      in s2\<lparr>nodes := (nodes s2)[current_node_idx := del_data (nodes s2 ! current_node_idx)]\<rparr>)"

text \<open>
  The head of the loop body: the id is popped from the front of the queue, the node is
  looked up in the arena, and for every node but the root the locals \<^verbatim>\<open>data_node\<close>
  and \<^verbatim>\<open>level\<close> are reloaded.
\<close>

definition select_node ::
  "('i, 'f, 'o) fit_frame \<Rightarrow> error + (nat \<times> ('i, 'f, 'o) fit_frame)" where
  "select_node s =
     (case incomplete_nodes s of
        [] \<Rightarrow> Inl IndexError
      | current_node_idx # rest \<Rightarrow>
          if length (nodes s) \<le> current_node_idx then Inl IndexError
          else if current_node_idx > 0 then
            (case nodes2levels s current_node_idx of
               None \<Rightarrow> Inl KeyError
             | Some l \<Rightarrow>
                 Inr (current_node_idx,
                      s\<lparr>incomplete_nodes := rest,
                        data_node := data (nodes s ! current_node_idx), level := l\<rparr>))
          else Inr (current_node_idx, s\<lparr>incomplete_nodes := rest\<rparr>))"

text \<open>
  One iteration of \<^verbatim>\<open>while len(self.incomplete_nodes) > 0\<close>. \<^verbatim>\<open>len(None)\<close> raises
  TypeError. The offset passed to \<^verbatim>\<open>level_pamk\<close> is \<^verbatim>\<open>len(self.nodes) - 1\<close>; the
  arena is not empty at that point, so the subtraction on naturals is the one on integers.
\<close>

definition fit_body ::
  "('f, 'o) pamk \<Rightarrow> ('i, 'f, 'o) fit_frame \<Rightarrow> error + ('i, 'f, 'o) fit_frame" where
  "fit_body pamk s0 =
     (case select_node s0 of
        Inl e \<Rightarrow> Inl e
      | Inr (current_node_idx, s) \<Rightarrow>
          (case data_node s of
             None \<Rightarrow> Inl TypeError
           | Some dn \<Rightarrow>
               if length dn > 2 then
                 (case level_pamk pamk dn (max_k s) (length (nodes s) - 1) (random_state s) of
                    Inl e \<Rightarrow> Inl e
                  | Inr (clustered_data, meds, rs) \<Rightarrow>
                      if length meds > 1
                      then Inr (split_node current_node_idx clustered_data meds dn
                                  (s\<lparr>random_state := rs\<rparr>))
                      else Inr (s\<lparr>random_state := rs\<rparr>))
               else Inr s))"

text \<open>
  The loop. The oracle may keep splitting a node into itself and an empty sibling, so the
  loop need not end. \<open>fit_iterate pamk n s\<close> is the state after at most \<open>n\<close> iterations
  from \<open>s\<close> (fewer when the queue empties), or the error raised on the way;
  \<open>fit_loop\<close> is the loop on fuel: \<open>None\<close> means that the queue was not yet empty when
  the fuel ran out.
\<close>

fun fit_iterate ::
  "('f, 'o) pamk \<Rightarrow> nat \<Rightarrow> ('i, 'f, 'o) fit_frame \<Rightarrow> error + ('i, 'f, 'o) fit_frame"
  where
  "fit_iterate pamk 0 s = Inr s"
| "fit_iterate pamk (Suc n) s =
     (if incomplete_nodes s = [] then Inr s
      else (case fit_body pamk s of
              Inl e \<Rightarrow> Inl e
            | Inr s' \<Rightarrow> fit_iterate pamk n s'))"

definition fit_loop ::
  "('f, 'o) pamk \<Rightarrow> nat \<Rightarrow> ('i, 'f, 'o) fit_frame \<Rightarrow> (error + ('i, 'f, 'o) fit_frame) option"
  where
  "fit_loop pamk fuel s =
     (case fit_iterate pamk fuel s of
        Inl e \<Rightarrow> Some (Inl e)
      | Inr t \<Rightarrow> if incomplete_nodes t = [] then Some (Inr t) else None)"

text \<open>
  The ids popped by the first \<open>n\<close> iterations from \<open>s\<close>, in the order in which they
  are popped.
\<close>

fun dequeued :: "('f, 'o) pamk \<Rightarrow> nat \<Rightarrow> ('i, 'f, 'o) fit_frame \<Rightarrow> nat list" where
  "dequeued pamk 0 s = []"
| "dequeued pamk (Suc n) s =
     (case incomplete_nodes s of
        [] \<Rightarrow> []
      | current_node_idx # rest \<Rightarrow>
          current_node_idx #
            (case fit_body pamk s of Inl e \<Rightarrow> [] | Inr s' \<Rightarrow> dequeued pamk n s'))"

text \<open>
  The state at the loop's entry. The standardisation \<^verbatim>\<open>z_score\<close> is a parameter: it
  maps the feature columns to the scaled ones, or fails; assigning a block of another
  height to \<^verbatim>\<open>iloc[:, 1:]\<close> raises ValueError. The id column is not touched.
\<close>

definition fit_entry ::
  "('i, 'f, 'o) AutoAttributeTree \<Rightarrow> ('i, 'f) table \<Rightarrow> ('i, 'f, 'o) fit_frame" where
  "fit_entry self scaled_data =
     \<lparr>nodes = nodes self @ [Node 0 None (Some scaled_data)],
      incomplete_nodes = incomplete_nodes self,
      medoids = medoids self,
      levels2nodes = dd_append (levels2nodes self) 0 0,
      nodes2levels = (nodes2levels self)(0 \<mapsto> 0),
      max_k = max_k self,
      leaf_nodes_idx = leaf_nodes_idx self,
      random_state = random_state self,
      data_node = Some scaled_data,
      level = 0\<rparr>"

definition fit_exit :: "('i, 'f, 'o) fit_frame \<Rightarrow> ('i, 'f, 'o) AutoAttributeTree" where
  "fit_exit s =
     \<lparr>nodes = nodes s,
      incomplete_nodes = incomplete_nodes s,
      medoids = medoids s,
      levels2nodes = levels2nodes s,
      nodes2levels = nodes2levels s,
      max_k = max_k s,
      leaf_nodes_idx = map name (filter (\<lambda>n. data n \<noteq> None) (nodes s)),
      random_state = random_state s\<rparr>"

definition scale_table ::
  "('f list \<Rightarrow> error + 'f list) \<Rightarrow> ('i, 'f) table \<Rightarrow> error + ('i, 'f) table" where
  "scale_table z_score dat =
     (case z_score (map snd dat) of
        Inl e \<Rightarrow> Inl e
      | Inr X \<Rightarrow> if length X \<noteq> length dat then Inl ValueError
                 else Inr (zip (map fst dat) X))"

definition fit ::
  "('f, 'o) pamk \<Rightarrow> ('f list \<Rightarrow> error + 'f list) \<Rightarrow> nat
     \<Rightarrow> ('i, 'f, 'o) AutoAttributeTree \<Rightarrow> ('i, 'f) table
     \<Rightarrow> (error + ('i, 'f, 'o) AutoAttributeTree) option" where
  "fit pamk z_score fuel self dat =
     (case scale_table z_score dat of
        Inl e \<Rightarrow> Some (Inl e)
      | Inr scaled_data \<Rightarrow>
          (case fit_loop pamk fuel (fit_entry self scaled_data) of
             None \<Rightarrow> None
           | Some (Inl e) \<Rightarrow> Some (Inl e)
           | Some (Inr s) \<Rightarrow> Some (Inr (fit_exit s))))"

subsection \<open>The arena invariant and a running example\<close>

text \<open>Every node sits in the arena at the position given by its name.\<close>

definition arena_ok :: "('i, 'f, 'o, 'z) AutoAttributeTree_scheme \<Rightarrow> bool" where
  "arena_ok s = (map name (nodes s) = [0..<length (nodes s)])"

text \<open>
  A table of three rows and an oracle that always proposes two clusters, the first row
  against the other two; the standardisation is the identity.
\<close>

definition ex_pamk :: "(nat, unit) pamk" where
  "ex_pamk rs X krange = (rs, (\<lparr>medoid_indices = [0, 1], labels = [0, 1, 1]\<rparr>, 2))"

definition ex_table :: "(nat, nat) table" where
  "ex_table = [(10, 0), (11, 5), (12, 6)]"

definition ex_z_score :: "nat list \<Rightarrow> error + nat list" where
  "ex_z_score X = Inr X"


text \<open>
  The run on this table: the state after the first iteration (the root is split into the
  first row and the other two), the tree returned, and the tree returned when the same
  table is fitted again on the returned builder.
\<close>

definition ex_nodes :: "(nat, nat) node list" where
  "ex_nodes =
     [\<lparr>name = 0, parent_node = None, children_nodes = [1, 2], data = None\<rparr>,
      \<lparr>name = 1, parent_node = Some 0, children_nodes = [], data = Some [(10, 0)]\<rparr>,
      \<lparr>name = 2, parent_node = Some 0, children_nodes = [], data = Some [(11, 5), (12, 6)]\<rparr>]"


definition ex_fitted :: "(nat, nat, unit) AutoAttributeTree" where
  "ex_fitted =
     \<lparr>nodes = ex_nodes, incomplete_nodes = [], medoids = [(1, 10), (2, 11)],
      levels2nodes = [(0, [0]), (1, [1, 2])], nodes2levels = [0 \<mapsto> 0, 1 \<mapsto> 1, 2 \<mapsto> 1],
      max_k = 10, leaf_nodes_idx = [1, 2], random_state = ()\<rparr>"

definition ex_refitted :: "(nat, nat, unit) AutoAttributeTree" where
  "ex_refitted =
     \<lparr>nodes = ex_nodes @ [\<lparr>name = 0, parent_node = None, children_nodes = [], data = Some ex_table\<rparr>],
      incomplete_nodes = [], medoids = [(1, 10), (2, 11)],
      levels2nodes = [(0, [0, 0]), (1, [1, 2])],
      nodes2levels = [0 \<mapsto> 0, 1 \<mapsto> 1, 2 \<mapsto> 1, 0 \<mapsto> 0],
      max_k = 10, leaf_nodes_idx = [1, 2, 0], random_state = ()\<rparr>"

text \<open>A table of one row, fitted on a new builder, and fitted again on the result.\<close>

definition ex_row :: "(nat, nat) table" where
  "ex_row = [(10, 0)]"

definition ex_row_fitted :: "(nat, nat, unit) AutoAttributeTree" where
  "ex_row_fitted =
     \<lparr>nodes = [\<lparr>name = 0, parent_node = None, children_nodes = [], data = Some ex_row\<rparr>],
      incomplete_nodes = [], medoids = [],
      levels2nodes = [(0, [0])], nodes2levels = [0 \<mapsto> 0],
      max_k = 10, leaf_nodes_idx = [0], random_state = ()\<rparr>"

definition ex_row_refitted :: "(nat, nat, unit) AutoAttributeTree" where
  "ex_row_refitted =
     \<lparr>nodes = [\<lparr>name = 0, parent_node = None, children_nodes = [], data = Some ex_row\<rparr>,
               \<lparr>name = 0, parent_node = None, children_nodes = [], data = Some ex_row\<rparr>],
      incomplete_nodes = [], medoids = [],
      levels2nodes = [(0, [0, 0])], nodes2levels = [0 \<mapsto> 0],
      max_k = 10, leaf_nodes_idx = [0, 0], random_state = ()\<rparr>"

section \<open>Spectral clustering (model/spectral.py)\<close>

subsection \<open>\<^verbatim>\<open>spectral_clustering_mod\<close>\<close>

text \<open>
  The functions that \<^verbatim>\<open>spectral_clustering_mod\<close> calls are parameters of the model. Each
  takes the state of the world \<open>'w\<close> (generator, output stream, anything a call may
  touch) and returns its result, or the exception it raises, with the new state of the
  world. \<^verbatim>\<open>assign_labels\<close> is a string, as its documentation types it.
\<close>

record ('w, 's, 'r, 'a, 'es, 'et, 'm, 'c, 'l, 'x) library =
  lib_check_random_state :: "'s \<Rightarrow> 'w \<Rightarrow> (error + 'r) \<times> 'w"
  lib_spectral_embedding ::
    "'a \<Rightarrow> int \<Rightarrow> 'es \<Rightarrow> 'r \<Rightarrow> 'et \<Rightarrow> bool \<Rightarrow> 'w \<Rightarrow> (error + 'm) \<times> 'w"
  lib_k_medoids :: "'m \<Rightarrow> int \<Rightarrow> 'r \<Rightarrow> int \<Rightarrow> bool \<Rightarrow> 'w \<Rightarrow> (error + 'c \<times> 'l \<times> 'x) \<times> 'w"
  lib_k_means :: "'m \<Rightarrow> int \<Rightarrow> 'r \<Rightarrow> int \<Rightarrow> bool \<Rightarrow> 'w \<Rightarrow> (error + 'c \<times> 'l \<times> 'x) \<times> 'w"
  lib_discretize :: "'m \<Rightarrow> 'r \<Rightarrow> 'w \<Rightarrow> (error + 'l) \<times> 'w"
  lib_print :: "string \<Rightarrow> 'w \<Rightarrow> 'w"

definition spectral_clustering_mod ::
  "('w, 's, 'r, 'a, 'es, 'et, 'm, 'c, 'l, 'x) library
     \<Rightarrow> 'a \<Rightarrow> int \<Rightarrow> int option \<Rightarrow> 'es \<Rightarrow> 's \<Rightarrow> int \<Rightarrow> 'et \<Rightarrow> string \<Rightarrow> bool \<Rightarrow> 'w
     \<Rightarrow> (error + 'l \<times> 'm \<times> 'c option) \<times> 'w" where
  "spectral_clustering_mod lib affinity n_clusters n_components eigen_solver seed
       n_init eigen_tol assign_labels verbose w =
     (if assign_labels \<notin> set [''kmedoids'', ''kmeans'', ''discretize'']
      then (Inl ValueError, w)
      else
        (case lib_check_random_state lib seed w of
           (Inl e, w1) \<Rightarrow> (Inl e, w1)
         | (Inr rs, w1) \<Rightarrow>
             (case lib_spectral_embedding lib affinity
                     (case n_components of None \<Rightarrow> n_clusters | Some c \<Rightarrow> c)
                     eigen_solver rs eigen_tol False w1 of
                (Inl e, w2) \<Rightarrow> (Inl e, w2)
              | (Inr emb, w2) \<Rightarrow>
                  (let w3 = (if verbose
                             then lib_print lib (''Computing label assignment using '' @ assign_labels) w2
                             else w2)
                   in if assign_labels = ''kmedoids'' then
                        (case lib_k_medoids lib emb n_clusters rs n_init verbose w3 of
                           (Inl e, w4) \<Rightarrow> (Inl e, w4)
                         | (Inr (cluster_centers, lbls, _), w4) \<Rightarrow>
                             (Inr (lbls, emb, Some cluster_centers), w4))
                      else if assign_labels = ''kmeans'' then
                        (case lib_k_means lib emb n_clusters rs n_init verbose w3 of
                           (Inl e, w4) \<Rightarrow> (Inl e, w4)
                         | (Inr (cluster_centers, lbls, _), w4) \<Rightarrow>
                             (Inr (lbls, emb, Some cluster_centers), w4))
                      else
                        (case lib_discretize lib emb rs w3 of
                           (Inl e, w4) \<Rightarrow> (Inl e, w4)
                         | (Inr lbls, w4) \<Rightarrow> (Inr (lbls, emb, None), w4))))))"

text \<open>
  A library that never fails and only records, in the world, the names of the functions
  called, in the order of the calls.
\<close>

definition ex_library ::
  "(string list, unit, unit, unit, unit, unit, unit, unit, unit, unit) library" where
  "ex_library =
     \<lparr>lib_check_random_state = (\<lambda>s w. (Inr (), w @ [''check_random_state''])),
      lib_spectral_embedding = (\<lambda>a n es r et d w. (Inr (), w @ [''spectral_embedding''])),
      lib_k_medoids = (\<lambda>m n r i v w. (Inr ((), (), ()), w @ [''k_medoids''])),
      lib_k_means = (\<lambda>m n r i v w. (Inr ((), (), ()), w @ [''k_means''])),
      lib_discretize = (\<lambda>m r w. (Inr (), w @ [''discretize''])),
      lib_print = (\<lambda>msg w. w @ [''print''])\<rparr>"


subsection \<open>\<^verbatim>\<open>discretize\<close>: normalisation of the embedding\<close>

text \<open>
  A two-dimensional array is the list of its rows. Floating-point numbers are idealised
  as reals: rounding, infinities and NaN (which the division by the norm of a zero column
  produces) are outside the model.
\<close>

type_synonym matrix = "real list list"

text \<open>\<^verbatim>\<open>np.linalg.norm\<close> of a vector, and the column \<^verbatim>\<open>m[:, i]\<close>.\<close>

definition linalg_norm :: "real list \<Rightarrow> real" where
  "linalg_norm v = sqrt (sum_list (map (\<lambda>x. x ^ 2) v))"

definition column :: "matrix \<Rightarrow> nat \<Rightarrow> real list" where
  "column m i = map (\<lambda>r. r ! i) m"

text \<open>
  One pass of \<^verbatim>\<open>for i in range(vectors.shape[1])\<close>: column \<open>i\<close> is divided by its norm
  and multiplied by \<^verbatim>\<open>norm_ones\<close>; then, unless its first entry is zero, it is multiplied
  by \<open>-1\<close> and by the sign of its first entry. \<^verbatim>\<open>vectors[0, i]\<close> raises IndexError on an
  array without rows.
\<close>

definition normalize_column :: "matrix \<Rightarrow> nat \<Rightarrow> error + matrix" where
  "normalize_column vectors i =
     (let norm_ones = sqrt (real (length vectors));
          nrm = linalg_norm (column vectors i);
          v1 = map (\<lambda>r. r[i := (r ! i / nrm) * norm_ones]) vectors
      in case v1 of
           [] \<Rightarrow> Inl IndexError
         | r0 # _ \<Rightarrow>
             if r0 ! i \<noteq> 0
             then Inr (map (\<lambda>r. r[i := - 1 * (r ! i) * sgn (r0 ! i)]) v1)
             else Inr v1)"

fun normalize_columns :: "matrix \<Rightarrow> nat list \<Rightarrow> error + matrix" where
  "normalize_columns vectors [] = Inr vectors"
| "normalize_columns vectors (i # cols) =
     (case normalize_column vectors i of
        Inl e \<Rightarrow> Inl e
      | Inr v \<Rightarrow> normalize_columns v cols)"

text \<open>\<^verbatim>\<open>vectors / np.sqrt((vectors ** 2).sum(axis=1))[:, np.newaxis]\<close>.\<close>

definition normalize_rows :: "matrix \<Rightarrow> matrix" where
  "normalize_rows vectors = map (\<lambda>r. map (\<lambda>x. x / sqrt (sum_list (map (\<lambda>y. y ^ 2) r))) r) vectors"

text \<open>
  Lines 79 to 89 of \<^verbatim>\<open>discretize\<close>; \<open>n_components\<close> is \<^verbatim>\<open>vectors.shape[1]\<close>, which the
  rows do not determine when there are none.
\<close>

definition normalize_vectors :: "matrix \<Rightarrow> nat \<Rightarrow> error + matrix" where
  "normalize_vectors vectors n_components =
     (case normalize_columns vectors [0..<n_components] of
        Inl e \<Rightarrow> Inl e
      | Inr v \<Rightarrow> Inr (normalize_rows v))"

text \<open>
  The value that the pass for column \<open>i\<close> writes in place of the entry \<open>x\<close> of that
  column.
\<close>

definition reoriented :: "matrix \<Rightarrow> nat \<Rightarrow> real \<Rightarrow> real" where
  "reoriented vectors i x =
     (let scale = sqrt (real (length vectors)) / linalg_norm (column vectors i)
      in if hd vectors ! i * scale \<noteq> 0 then - (x * scale) * sgn (hd vectors ! i * scale)
         else x * scale)"

text \<open>The array after the passes for the columns \<open>0, \<dots>, k - 1\<close>, for rows of length \<open>d\<close>.\<close>

definition columns_done :: "matrix \<Rightarrow> nat \<Rightarrow> nat \<Rightarrow> matrix" where
  "columns_done vectors d k =
     map (\<lambda>r. map (\<lambda>j. if j < k then reoriented vectors j (r ! j) else r ! j) [0..<d]) vectors"

subsection \<open>\<^verbatim>\<open>discretize\<close>: the search for the rotation\<close>

text \<open>
  \<^verbatim>\<open>np.dot\<close> of an array and a vector, the transpose of an array of \<open>d\<close> columns, and
  \<^verbatim>\<open>np.dot\<close> of two arrays, the second of \<open>d\<close> columns.
\<close>

definition dot_vec :: "matrix \<Rightarrow> real list \<Rightarrow> real list" where
  "dot_vec m v = map (\<lambda>r. sum_list (map2 (*) r v)) m"

definition transposed :: "nat \<Rightarrow> matrix \<Rightarrow> matrix" where
  "transposed d m = map (column m) [0..<d]"

definition dot :: "matrix \<Rightarrow> nat \<Rightarrow> matrix \<Rightarrow> matrix" where
  "dot a d b = map (dot_vec (transposed d b)) a"

text \<open>\<^verbatim>\<open>argmax\<close> and \<^verbatim>\<open>argmin\<close> return the first position of the extremum.\<close>

fun first_index :: "real \<Rightarrow> real list \<Rightarrow> nat" where
  "first_index x [] = 0"
| "first_index x (y # ys) = (if x = y then 0 else Suc (first_index x ys))"

definition argmax :: "real list \<Rightarrow> nat" where
  "argmax v = first_index (Max (set v)) v"

definition argmin :: "real list \<Rightarrow> nat" where
  "argmin v = first_index (Min (set v)) v"

text \<open>
  The rotation a restart begins with. Its first column is the row of \<^verbatim>\<open>vectors\<close> drawn
  by the generator; each further column is the row for which the accumulated \<^verbatim>\<open>c\<close>
  (the absolute products with the columns chosen so far) is least.
\<close>

fun pick_rows :: "matrix \<Rightarrow> real list \<Rightarrow> real list \<Rightarrow> nat \<Rightarrow> matrix" where
  "pick_rows vectors c prev 0 = []"
| "pick_rows vectors c prev (Suc k) =
     (let c' = map2 (+) c (map abs (dot_vec vectors prev));
          row = vectors ! argmin c'
      in row # pick_rows vectors c' row k)"

definition initial_rotation :: "matrix \<Rightarrow> nat \<Rightarrow> nat \<Rightarrow> matrix" where
  "initial_rotation vectors n_components k0 =
     transposed n_components
       (vectors ! k0
          # pick_rows vectors (replicate (length vectors) 0) (vectors ! k0) (n_components - 1))"

text \<open>
  \<^verbatim>\<open>t_svd = vectors_discrete.T * vectors\<close>, where \<^verbatim>\<open>vectors_discrete\<close> is the one-hot
  matrix of the labels: entry \<open>(a, b)\<close> sums column \<open>b\<close> over the rows labelled \<open>a\<close>.
\<close>

definition t_svd :: "nat list \<Rightarrow> matrix \<Rightarrow> nat \<Rightarrow> matrix" where
  "t_svd lbls vectors d =
     map (\<lambda>a. map (\<lambda>b. sum_list (map (\<lambda>(l, r). if l = a then r ! b else 0) (zip lbls vectors)))
                 [0..<d])
       [0..<d]"

text \<open>\<^verbatim>\<open>np.finfo(float).eps\<close>.\<close>

definition eps :: real where
  "eps = 1 / 2 ^ 52"

text \<open>
  \<^verbatim>\<open>np.linalg.svd\<close> is a parameter: it returns \<open>U\<close>, the singular values and \<open>Vh\<close>, or
  \<open>None\<close> when it raises \<^verbatim>\<open>LinAlgError\<close>.
\<close>

type_synonym svd = "matrix \<Rightarrow> (matrix \<times> real list \<times> matrix) option"

text \<open>
  The inner loop \<^verbatim>\<open>while not has_converged\<close>, entered with \<^verbatim>\<open>has_converged\<close> false. It
  returns the labels of its last iteration, \<^verbatim>\<open>has_converged\<close> and \<^verbatim>\<open>svd_restarts\<close>. It
  ends: an iteration that neither breaks nor converges has \<open>n_iter + 1 \<le> n_iter_max\<close>.
\<close>

function search ::
  "svd \<Rightarrow> matrix \<Rightarrow> nat \<Rightarrow> int \<Rightarrow> matrix \<Rightarrow> real \<Rightarrow> int \<Rightarrow> int \<Rightarrow> nat list \<times> bool \<times> int" where
  "search svd vectors d n_iter_max rotation last_objective_value n_iter svd_restarts =
     (let lbls = map argmax (dot vectors d rotation)
      in case svd (t_svd lbls vectors d) of
           None \<Rightarrow> (lbls, False, svd_restarts)
         | Some (U, S, Vh) \<Rightarrow>
             (let ncut_value = 2 * (real (length vectors) - sum_list S)
              in if \<bar>ncut_value - last_objective_value\<bar> < eps \<or> n_iter + 1 > n_iter_max
                 then (lbls, True, svd_restarts + 1)
                 else search svd vectors d n_iter_max (dot (transposed d Vh) d (transposed d U))
                        ncut_value (n_iter + 1) (svd_restarts + 1)))"
  by pat_completeness auto
termination
  by (relation "measure (\<lambda>(svd, vectors, d, n_iter_max, rotation, l, n_iter, r). nat (n_iter_max - n_iter))")
     auto

text \<open>
  The iterations of the inner loop in which the decomposition succeeded, in order: the
  labels and the objective value of each.
\<close>

function iterations ::
  "svd \<Rightarrow> matrix \<Rightarrow> nat \<Rightarrow> int \<Rightarrow> matrix \<Rightarrow> real \<Rightarrow> int \<Rightarrow> (nat list \<times> real) list" where
  "iterations svd vectors d n_iter_max rotation last_objective_value n_iter =
     (let lbls = map argmax (dot vectors d rotation)
      in case svd (t_svd lbls vectors d) of
           None \<Rightarrow> []
         | Some (U, S, Vh) \<Rightarrow>
             (let ncut_value = 2 * (real (length vectors) - sum_list S)
              in (lbls, ncut_value) #
                 (if \<bar>ncut_value - last_objective_value\<bar> < eps \<or> n_iter + 1 > n_iter_max
                  then []
                  else iterations svd vectors d n_iter_max
                         (dot (transposed d Vh) d (transposed d U)) ncut_value (n_iter + 1))))"
  by pat_completeness auto
termination
  by (relation "measure (\<lambda>(svd, vectors, d, n_iter_max, rotation, l, n_iter). nat (n_iter_max - n_iter))")
     auto

text \<open>
  The outer loop \<^verbatim>\<open>while (svd_restarts < max_svd_restarts) and not has_converged\<close> and the
  statements after it, on fuel: the loop may go on for ever. The state is
  \<^verbatim>\<open>svd_restarts\<close>, \<^verbatim>\<open>has_converged\<close>, \<^verbatim>\<open>labels\<close> and the generator.
  \<^verbatim>\<open>randint(0)\<close> raises ValueError; \<^verbatim>\<open>rotation[:, 0]\<close> raises IndexError on an array
  without columns.
\<close>

fun restart_loop ::
  "svd \<Rightarrow> ('r \<Rightarrow> nat \<Rightarrow> nat \<times> 'r) \<Rightarrow> matrix \<Rightarrow> nat \<Rightarrow> int \<Rightarrow> int \<Rightarrow> nat
     \<Rightarrow> int \<times> bool \<times> nat list \<times> 'r \<Rightarrow> (error + nat list) option" where
  "restart_loop svd randint vectors d max_svd_restarts n_iter_max fuel
       (svd_restarts, has_converged, lbls, rs) =
     (if svd_restarts < max_svd_restarts \<and> \<not> has_converged then
        (case fuel of
           0 \<Rightarrow> None
         | Suc fuel' \<Rightarrow>
             if length vectors = 0 then Some (Inl ValueError)
             else
               (let (k0, rs') = randint rs (length vectors)
                in if d = 0 then Some (Inl IndexError)
                   else
                     (case search svd vectors d n_iter_max (initial_rotation vectors d k0)
                             0 0 svd_restarts of
                        (lbls', has_converged', svd_restarts') \<Rightarrow>
                          restart_loop svd randint vectors d max_svd_restarts n_iter_max fuel'
                            (svd_restarts', has_converged', lbls', rs'))))
      else if \<not> has_converged then Some (Inl LinAlgError)
      else Some (Inr lbls))"

text \<open>
  \<^verbatim>\<open>discretize\<close>. The generator is the one \<^verbatim>\<open>check_random_state\<close> returns;
  \<open>n_components\<close> is \<^verbatim>\<open>vectors.shape[1]\<close>.
\<close>

definition discretize ::
  "svd \<Rightarrow> ('r \<Rightarrow> nat \<Rightarrow> nat \<times> 'r) \<Rightarrow> matrix \<Rightarrow> nat \<Rightarrow> int \<Rightarrow> int \<Rightarrow> 'r \<Rightarrow> nat
     \<Rightarrow> (error + nat list) option" where
  "discretize svd randint vectors n_components max_svd_restarts n_iter_max rs fuel =
     (case normalize_vectors vectors n_components of
        Inl e \<Rightarrow> Some (Inl e)
      | Inr v \<Rightarrow>
          restart_loop svd randint v n_components max_svd_restarts n_iter_max fuel
            (0, False, [], rs))"

section \<open>Properties of the tree builder\<close>

subsection \<open>What one iteration does\<close>

lemma level_pamk_split:
  assumes "level_pamk pamk dn mk off rs = Inr (cd, meds, rs')" and "length meds > 1"
  shows "\<exists>res. pamk rs (map snd dn) [1..min (int (length dn) - 1) mk] = (rs', (res, length meds))
           \<and> length (labels res) = length dn
           \<and> length (medoid_indices res) = length meds
           \<and> (\<forall>j \<in> set (medoid_indices res). j < length dn)
           \<and> cd = zip (map fst dn) (map (\<lambda>l. l + off + 1) (labels res))
           \<and> meds = zip [off + 1 ..< off + 1 + length meds] (map (\<lambda>j. map fst dn ! j) (medoid_indices res))"
proof -
  obtain res :: pam_result and k where p: "pamk rs (map snd dn) [1..min (int (length dn) - 1) mk] = (rs', (res, k))"
    using assms by (auto simp: level_pamk_def Let_def split: prod.splits if_splits)
  have k1: "k \<noteq> 1"
    using assms p by (auto simp: level_pamk_def Let_def split: if_splits)
  have r: "\<not> (\<exists>j \<in> set (medoid_indices res). length dn \<le> j)"
      "length (medoid_indices res) = k" "length (labels res) = length dn"
      "cd = zip (map fst dn) (map (\<lambda>l. l + off + 1) (labels res))"
      "meds = zip [off + 1 ..< off + 1 + k] (map (\<lambda>j. map fst dn ! j) (medoid_indices res))"
    using assms(1) p k1 by (simp_all add: level_pamk_def Let_def split: if_splits)
  have lm: "length meds = k" using r(2,5) by simp
  have mi: "\<forall>j \<in> set (medoid_indices res). j < length dn"
    using r(1) by (meson not_le)
  show ?thesis
    using p [folded lm] r(3) r(2) [folded lm] mi r(4) r(5) [folded lm]
    by - (intro exI [of _ res] conjI; assumption)
qed

lemma level_pamk_cluster_ids:
  assumes "level_pamk pamk dn mk off rs = Inr (cd, meds, rs')" and "length meds > 1"
  shows "map fst meds = [off + 1 ..< off + 1 + length meds]"
proof -
  from level_pamk_split [OF assms] obtain res :: pam_result where
    l: "length (medoid_indices res) = length meds" and
    m: "meds = zip [off + 1 ..< off + 1 + length meds] (map (\<lambda>j. map fst dn ! j) (medoid_indices res))"
    by blast
  have "map fst (zip [off + 1 ..< off + 1 + length meds] (map (\<lambda>j. map fst dn ! j) (medoid_indices res)))
        = [off + 1 ..< off + 1 + length meds]"
    using assms(2) by (intro map_fst_zip) (simp add: l)
  with m show ?thesis by simp
qed

lemma select_node_Inr:
  assumes "select_node s = Inr (idx, s1)"
  shows "incomplete_nodes s = idx # incomplete_nodes s1 \<and> idx < length (nodes s)
         \<and> nodes s1 = nodes s \<and> medoids s1 = medoids s \<and> levels2nodes s1 = levels2nodes s
         \<and> nodes2levels s1 = nodes2levels s \<and> max_k s1 = max_k s
         \<and> random_state s1 = random_state s \<and> leaf_nodes_idx s1 = leaf_nodes_idx s
         \<and> (0 < idx \<longrightarrow> data_node s1 = data (nodes s ! idx) \<and> nodes2levels s idx = Some (level s1))
         \<and> (idx = 0 \<longrightarrow> data_node s1 = data_node s \<and> level s1 = level s)"
  using assms
  by (auto simp: select_node_def split: list.splits if_splits option.splits)

lemma fit_body_cases:
  assumes "fit_body pamk s = Inr s'"
  obtains (few) idx s1 dn where "select_node s = Inr (idx, s1)" "data_node s1 = Some dn"
      "length dn \<le> 2" "s' = s1"
  | (keep) idx s1 dn cd meds rs where "select_node s = Inr (idx, s1)" "data_node s1 = Some dn"
      "2 < length dn"
      "level_pamk pamk dn (max_k s1) (length (nodes s1) - 1) (random_state s1) = Inr (cd, meds, rs)"
      "length meds \<le> 1" "s' = s1\<lparr>random_state := rs\<rparr>"
  | (split) idx s1 dn cd meds rs where "select_node s = Inr (idx, s1)" "data_node s1 = Some dn"
      "2 < length dn"
      "level_pamk pamk dn (max_k s1) (length (nodes s1) - 1) (random_state s1) = Inr (cd, meds, rs)"
      "1 < length meds" "s' = split_node idx cd meds dn (s1\<lparr>random_state := rs\<rparr>)"
proof -
  from assms obtain idx s1 where sel: "select_node s = Inr (idx, s1)"
    by (cases "select_node s") (auto simp: fit_body_def)
  from assms sel obtain dn where dn: "data_node s1 = Some dn"
    by (cases "data_node s1") (auto simp: fit_body_def)
  show ?thesis
  proof (cases "2 < length dn")
    case False
    with assms sel dn have "s' = s1" by (simp add: fit_body_def)
    with False sel dn show ?thesis by (intro few) auto
  next
    case True
    with assms sel dn obtain cd meds rs where
      lp: "level_pamk pamk dn (max_k s1) (length (nodes s1) - 1) (random_state s1) = Inr (cd, meds, rs)"
      by (cases "level_pamk pamk dn (max_k s1) (length (nodes s1) - 1) (random_state s1)")
         (auto simp: fit_body_def)
    show ?thesis
    proof (cases "1 < length meds")
      case False
      with assms sel dn True lp have "s' = s1\<lparr>random_state := rs\<rparr>" by (simp add: fit_body_def)
      with False sel dn True lp show ?thesis by (intro keep) auto
    next
      case t: True
      with assms sel dn True lp have "s' = split_node idx cd meds dn (s1\<lparr>random_state := rs\<rparr>)"
        by (simp add: fit_body_def)
      with t sel dn True lp show ?thesis by (intro split) auto
    qed
  qed
qed

lemma fold_new_child_nodes:
  "idx < length (nodes s) \<Longrightarrow>
   nodes (fold (new_child idx cd dn lvl) ns s) =
     (nodes s)[idx := (nodes s ! idx)\<lparr>children_nodes := children_nodes (nodes s ! idx) @ ns\<rparr>]
       @ map (\<lambda>n. Node n (Some idx) (Some (masked cd dn n))) ns"
proof (induction ns arbitrary: s)
  case Nil
  then show ?case by simp
next
  case (Cons n ns)
  let ?s = "new_child idx cd dn lvl n s"
  have len: "idx < length (nodes ?s)" using Cons.prems by (simp add: new_child_def)
  have nth: "nodes ?s ! idx = add_child (nodes s ! idx) n"
    using Cons.prems by (simp add: new_child_def nth_append)
  show ?case
    using Cons.prems
    by (simp add: Cons.IH [OF len] nth)
       (simp add: new_child_def add_child_def list_update_append1)
qed




lemma split_node_nodes:
  assumes "idx < length (nodes s)"
  shows "nodes (split_node idx cd meds dn s) =
     (nodes s)[idx := (nodes s ! idx)\<lparr>children_nodes := children_nodes (nodes s ! idx) @ map fst meds,
                                     data := None\<rparr>]
       @ map (\<lambda>n. Node n (Some idx) (Some (masked cd dn n))) (map fst meds)"
  using assms
  by (simp add: split_node_def Let_def fold_new_child_nodes list_update_append1 nth_append del_data_def)


subsection \<open>Invariants of the loop\<close>

lemma fit_iterate_invariant:
  assumes "fit_iterate pamk n s = Inr t" and "P s"
    and "\<And>s s'. P s \<Longrightarrow> fit_body pamk s = Inr s' \<Longrightarrow> P s'"
  shows "P t"
  using assms(1,2)
proof (induction n arbitrary: s)
  case 0
  then show ?case by simp
next
  case (Suc n)
  show ?case
  proof (cases "incomplete_nodes s = []")
    case True
    with Suc.prems show ?thesis by simp
  next
    case False
    with Suc.prems(1) obtain s' where b: "fit_body pamk s = Inr s'"
      and r: "fit_iterate pamk n s' = Inr t"
      by (cases "fit_body pamk s") simp_all
    from assms(3) [OF Suc.prems(2) b] have p: "P s'" .
    show ?thesis by (rule Suc.IH [OF r p])
  qed
qed

lemma map_name_update:
  "idx < length xs \<Longrightarrow>
   map name (xs[idx := (xs ! idx)\<lparr>children_nodes := c, data := d\<rparr>]) = map name xs"
  by (rule nth_equalityI) (auto simp: nth_list_update)

lemma arena_ok_step:
  assumes "arena_ok s" and "fit_body pamk s = Inr s'"
  shows "arena_ok s'"
  using assms(2)
proof (cases rule: fit_body_cases)
  case (few idx s1 dn)
  from select_node_Inr [OF few(1)] have "nodes s1 = nodes s" by blast
  then have "nodes s' = nodes s" by (simp only: few(4))
  with assms(1) show ?thesis by (simp only: arena_ok_def)
next
  case (keep idx s1 dn cd meds rs)
  from select_node_Inr [OF keep(1)] have "nodes s1 = nodes s" by blast
  then have "nodes s' = nodes s" unfolding keep(6) by simp
  with assms(1) show ?thesis by (simp only: arena_ok_def)
next
  case (split idx s1 dn cd meds rs)
  from select_node_Inr [OF split(1)] have idx: "idx < length (nodes s)"
    and n1: "nodes s1 = nodes s" by blast+
  have e: "length (nodes s1) - 1 + 1 = length (nodes s)" using idx n1 by simp
  have ids: "map fst meds = [length (nodes s) ..< length (nodes s) + length meds]"
    using level_pamk_cluster_ids [OF split(4,5)] unfolding e .
  let ?s2 = "s1\<lparr>random_state := rs\<rparr>"
  have idx2: "idx < length (nodes ?s2)" using idx n1 by simp
  have n': "nodes s' =
     (nodes s)[idx := (nodes s ! idx)\<lparr>children_nodes := children_nodes (nodes s ! idx) @ map fst meds,
                                     data := None\<rparr>]
       @ map (\<lambda>n. Node n (Some idx) (Some (masked cd dn n))) (map fst meds)"
    unfolding split(6) split_node_nodes [OF idx2] using n1 by simp
  have m1: "map name (map (\<lambda>n. Node n (Some idx) (Some (masked cd dn n))) (map fst meds)) = map fst meds"
    by (simp add: Node_def comp_def)
  have "map name (nodes s') = map name (nodes s) @ map fst meds"
    unfolding n' map_append map_name_update [OF idx] m1 ..
  also have "\<dots> = [0..<length (nodes s)] @ [length (nodes s) ..< length (nodes s) + length meds]"
    using assms(1) ids by (simp only: arena_ok_def)
  also have "\<dots> = [0..<length (nodes s) + length meds]"
    by (simp only: upt_add_eq_append [OF le0, symmetric] add_0)
  finally have "map name (nodes s') = [0..<length (nodes s) + length meds]" .
  moreover have "length (nodes s') = length (nodes s) + length meds"
    unfolding n' by simp
  ultimately show ?thesis by (simp only: arena_ok_def)
qed

lemma arena_ok_entry: "nodes self = [] \<Longrightarrow> arena_ok (fit_entry self sd)"
  by (simp add: arena_ok_def fit_entry_def Node_def)

lemma arena_ok_nth:
  assumes "arena_ok s" and "i < length (nodes s)"
  shows "name (nodes s ! i) = i"
proof -
  have "name (nodes s ! i) = map name (nodes s) ! i" using assms(2) by simp
  also have "\<dots> = [0..<length (nodes s)] ! i" using assms(1) by (simp only: arena_ok_def)
  also have "\<dots> = i" using assms(2) by simp
  finally show ?thesis .
qed

lemma fit_Some_Inr:
  assumes "fit pamk z_score fuel self dat = Some (Inr t)"
  shows "\<exists>sd s. scale_table z_score dat = Inr sd
           \<and> fit_iterate pamk fuel (fit_entry self sd) = Inr s
           \<and> incomplete_nodes s = [] \<and> t = fit_exit s"
  using assms
  by (auto simp: fit_def fit_loop_def split: sum.splits option.splits if_splits)

lemmas ex_defs = fit_def fit_loop_def scale_table_def ex_z_score_def ex_pamk_def ex_table_def
  fit_entry_def fit_exit_def init_def fit_body_def select_node_def level_pamk_def
  split_node_def new_child_def masked_def Node_def add_child_def del_data_def
  eval_nat_numeral Let_def

lemma ex_fit_runs:
  "\<exists>t. fit ex_pamk ex_z_score 3 (init 10 ()) ex_table = Some (Inr t) \<and> length (nodes t) = 3"
  by (simp add: ex_defs)


lemma ex_fit: "fit ex_pamk ex_z_score 3 (init 10 ()) ex_table = Some (Inr ex_fitted)"
  by (simp add: ex_defs ex_fitted_def ex_nodes_def)

lemma ex_refit: "fit ex_pamk ex_z_score 3 ex_fitted ex_table = Some (Inr ex_refitted)"
  by (simp add: ex_defs ex_fitted_def ex_refitted_def ex_nodes_def)

subsection \<open>C10: node names are arena indices\<close>

text \<open>
  Claim C10, as worded, speaks of every call of \<^verbatim>\<open>fit\<close>. \<^verbatim>\<open>fit\<close> never resets the
  arena: called on a builder that has already been fitted, it appends a second node named 0
  behind the nodes of the first tree. On the running example the second call leaves the
  names 0, 1, 2, 0 in the arena, so the node at index 3 is not the node with id 3, and the
  leaf list names the released root of the first tree.
\<close>

theorem second_fit_repeats_name:
  "fit ex_pamk ex_z_score 3 (init 10 ()) ex_table = Some (Inr ex_fitted)
   \<and> fit ex_pamk ex_z_score 3 ex_fitted ex_table = Some (Inr ex_refitted)
   \<and> map name (nodes ex_refitted) = [0, 1, 2, 0]
   \<and> name (nodes ex_refitted ! 3) \<noteq> 3
   \<and> leaf_nodes_idx ex_refitted = [1, 2, 0]"
  by (simp add: ex_fit ex_refit) (simp add: ex_refitted_def ex_nodes_def)

text \<open>
  Claim C10, amended. Let \<^verbatim>\<open>fit\<close> be called on a builder whose node list is empty (as it
  is after construction). Then at every point of the call (after any number of iterations of
  its loop) and in the tree it returns, the node stored at index \<open>i\<close> of the arena has
  name \<open>i\<close>; looking a node up by its id therefore returns the node with that id.
\<close>

theorem arena_names_are_indices:
  assumes "nodes self = []"
  shows "(fit_iterate pamk n (fit_entry self sd) = Inr s
      \<longrightarrow> (\<forall>i < length (nodes s). name (nodes s ! i) = i))
   \<and> (fit pamk z_score fuel self dat = Some (Inr t)
      \<longrightarrow> (\<forall>i < length (nodes t). name (nodes t ! i) = i))"
proof (intro conjI impI allI)
  fix i assume r: "fit_iterate pamk n (fit_entry self sd) = Inr s" and i: "i < length (nodes s)"
  have "arena_ok s"
    by (rule fit_iterate_invariant [where P = arena_ok, OF r arena_ok_entry [OF assms]])
       (rule arena_ok_step)
  then show "name (nodes s ! i) = i" using i by (rule arena_ok_nth)
next
  fix i assume f: "fit pamk z_score fuel self dat = Some (Inr t)" and i: "i < length (nodes t)"
  from fit_Some_Inr [OF f] obtain sd' s' where
    r: "fit_iterate pamk fuel (fit_entry self sd') = Inr s'" and t: "t = fit_exit s'"
    by blast
  have "arena_ok s'"
    by (rule fit_iterate_invariant [where P = arena_ok, OF r arena_ok_entry [OF assms]])
       (rule arena_ok_step)
  moreover have "nodes t = nodes s'" by (simp add: t fit_exit_def)
  ultimately show "name (nodes t ! i) = i" using i by (simp add: arena_ok_nth)
qed

theorem arena_names_are_indices_witness:
  "\<exists>t. fit ex_pamk ex_z_score 3 (init 10 ()) ex_table = Some (Inr t)
       \<and> length (nodes t) = 3
       \<and> name (nodes t ! 0) = 0 \<and> name (nodes t ! 1) = 1 \<and> name (nodes t ! 2) = 2"
proof -
  from ex_fit_runs obtain t where
    f: "fit ex_pamk ex_z_score 3 (init 10 ()) ex_table = Some (Inr t)" and l: "length (nodes t) = 3"
    by blast
  have e: "nodes (init 10 () :: (nat, nat, unit) AutoAttributeTree) = []" by (simp add: init_def)
  from arena_names_are_indices [OF e, of ex_pamk 0 "[]" "fit_entry (init 10 ()) []" ex_z_score 3 ex_table t] f
  have "\<forall>i < length (nodes t). name (nodes t ! i) = i" by blast
  with l have "name (nodes t ! 0) = 0 \<and> name (nodes t ! 1) = 1 \<and> name (nodes t ! 2) = 2" by simp
  with f l show ?thesis by blast
qed

subsection \<open>C3: nodes with at most two rows are never split\<close>

lemma fit_iterate_empty: "incomplete_nodes s = [] \<Longrightarrow> fit_iterate pamk n s = Inr s"
  by (cases n) simp_all

lemma scale_table_length: "scale_table z_score dat = Inr sd \<Longrightarrow> length sd = length dat"
  by (auto simp: scale_table_def split: sum.splits if_splits)

lemma scale_table_ids: "scale_table z_score dat = Inr sd \<Longrightarrow> map fst sd = map fst dat"
  by (auto simp: scale_table_def split: sum.splits if_splits)

lemma fit_body_few_root:
  assumes "nodes self = []" and "incomplete_nodes self = [0]" and "length sd \<le> 2"
  shows "fit_body pamk (fit_entry self sd) = Inr ((fit_entry self sd)\<lparr>incomplete_nodes := []\<rparr>)"
  using assms by (simp add: fit_body_def select_node_def fit_entry_def)

text \<open>
  Claim C3, as worded, speaks of every call of \<^verbatim>\<open>fit\<close> on a table of at most two rows.
  On a builder that has been fitted before, the queue is empty and the arena is not: the
  call appends a further root behind the old nodes. Fitting a table of one row twice on the
  same builder gives a tree of two nodes, both named 0 and both leaves.
\<close>

theorem one_row_fitted_twice:
  "fit ex_pamk ex_z_score 1 (init 10 ()) ex_row = Some (Inr ex_row_fitted)
   \<and> fit ex_pamk ex_z_score 1 ex_row_fitted ex_row = Some (Inr ex_row_refitted)
   \<and> length (nodes ex_row_refitted) = 2
   \<and> leaf_nodes_idx ex_row_refitted = [0, 0]"
  by (simp add: ex_defs ex_row_def ex_row_fitted_def ex_row_refitted_def)

text \<open>
  Claim C3, amended. On a builder whose node list is empty and whose queue holds the root id
  only (as after construction), \<^verbatim>\<open>fit\<close> on a table of at most two rows returns after one
  iteration, for every oracle, with a tree whose only node is the root; the root keeps its
  data and is the only leaf, the medoid table and the generator are untouched. In every
  state of the builder, an iteration that dequeues a node of at most two rows only removes
  that id from the front of the queue: the result does not depend on the oracle, the arena,
  the medoid table, both level indices and the generator are unchanged, and nothing is
  enqueued.
\<close>

theorem too_few_rows_stay_leaf:
  "(nodes self = [] \<longrightarrow> incomplete_nodes self = [0] \<longrightarrow> length dat \<le> 2 \<longrightarrow>
      scale_table z_score dat = Inr sd \<longrightarrow>
      (\<exists>t. fit pamk z_score (Suc fuel) self dat = Some (Inr t)
         \<and> nodes t = [\<lparr>name = 0, parent_node = None, children_nodes = [], data = Some sd\<rparr>]
         \<and> leaf_nodes_idx t = [0] \<and> incomplete_nodes t = []
         \<and> medoids t = medoids self \<and> random_state t = random_state self))
   \<and> (select_node s = Inr (idx, s1) \<longrightarrow> data_node s1 = Some dn \<longrightarrow> length dn \<le> 2 \<longrightarrow>
        fit_body pamk s = Inr s1 \<and> incomplete_nodes s = idx # incomplete_nodes s1
        \<and> nodes s1 = nodes s \<and> medoids s1 = medoids s \<and> random_state s1 = random_state s
        \<and> levels2nodes s1 = levels2nodes s \<and> nodes2levels s1 = nodes2levels s)"
proof (intro conjI impI)
  assume n: "nodes self = []" and q0: "incomplete_nodes self = [0]"
    and l: "length dat \<le> 2" and sc: "scale_table z_score dat = Inr sd"
  let ?s0 = "fit_entry self sd"
  let ?s1 = "?s0\<lparr>incomplete_nodes := []\<rparr>"
  have lsd: "length sd \<le> 2" using l scale_table_length [OF sc] by simp
  have q: "incomplete_nodes ?s0 \<noteq> []" using q0 by (simp add: fit_entry_def)
  have "fit_iterate pamk (Suc fuel) ?s0 = fit_iterate pamk fuel ?s1"
    using q by (simp add: fit_body_few_root [OF n q0 lsd])
  also have "\<dots> = Inr ?s1" by (rule fit_iterate_empty) simp
  finally have it: "fit_iterate pamk (Suc fuel) ?s0 = Inr ?s1" .
  have f: "fit pamk z_score (Suc fuel) self dat = Some (Inr (fit_exit ?s1))"
    by (simp add: fit_def sc fit_loop_def it del: fit_iterate.simps)
  have "nodes (fit_exit ?s1) = [\<lparr>name = 0, parent_node = None, children_nodes = [], data = Some sd\<rparr>]"
     "leaf_nodes_idx (fit_exit ?s1) = [0]" "incomplete_nodes (fit_exit ?s1) = []"
     "medoids (fit_exit ?s1) = medoids self" "random_state (fit_exit ?s1) = random_state self"
    using n by (simp_all add: fit_exit_def fit_entry_def Node_def)
  with f show "\<exists>t. fit pamk z_score (Suc fuel) self dat = Some (Inr t)
         \<and> nodes t = [\<lparr>name = 0, parent_node = None, children_nodes = [], data = Some sd\<rparr>]
         \<and> leaf_nodes_idx t = [0] \<and> incomplete_nodes t = []
         \<and> medoids t = medoids self \<and> random_state t = random_state self"
    by blast
next
  assume sel: "select_node s = Inr (idx, s1)" and dn: "data_node s1 = Some dn" and l: "length dn \<le> 2"
  show "fit_body pamk s = Inr s1" using sel dn l by (simp add: fit_body_def)
  from select_node_Inr [OF sel]
  show "incomplete_nodes s = idx # incomplete_nodes s1" "nodes s1 = nodes s"
    "medoids s1 = medoids s" "random_state s1 = random_state s"
    "levels2nodes s1 = levels2nodes s" "nodes2levels s1 = nodes2levels s"
    by blast+
qed

theorem too_few_rows_stay_leaf_witness:
  "(\<exists>t. fit ex_pamk ex_z_score 1 (init 10 ()) [(10, 0), (11, 5)] = Some (Inr t)
      \<and> nodes t = [\<lparr>name = 0, parent_node = None, children_nodes = [],
                     data = Some [(10::nat, 0::nat), (11, 5)]\<rparr>]
      \<and> leaf_nodes_idx t = [0] \<and> incomplete_nodes t = [])
   \<and> fit_body ex_pamk (fit_entry (init 10 ()) [(10::nat, 0::nat)])
       = Inr ((fit_entry (init 10 ()) [(10, 0)])\<lparr>incomplete_nodes := []\<rparr>)"
proof -
  have sc: "scale_table ex_z_score [(10::nat, 0::nat), (11, 5)] = Inr [(10, 0), (11, 5)]"
    by (simp add: scale_table_def ex_z_score_def)
  have sel: "select_node (fit_entry (init 10 ()) [(10::nat, 0::nat)])
      = Inr (0, (fit_entry (init 10 ()) [(10, 0)])\<lparr>incomplete_nodes := []\<rparr>)"
    by (simp add: select_node_def fit_entry_def init_def)
  have dn: "data_node ((fit_entry (init 10 ()) [(10::nat, 0::nat)])\<lparr>incomplete_nodes := []\<rparr>)
      = Some [(10, 0)]"
    by (simp add: fit_entry_def)
  have i: "nodes (init 10 () :: (nat, nat, unit) AutoAttributeTree) = []"
     "incomplete_nodes (init 10 () :: (nat, nat, unit) AutoAttributeTree) = [0]"
    by (simp_all add: init_def)
  from too_few_rows_stay_leaf [of "init 10 ()" "[(10::nat, 0::nat), (11, 5)]" ex_z_score "[(10, 0), (11, 5)]"
      ex_pamk 0 "fit_entry (init 10 ()) [(10::nat, 0::nat)]" 0
      "(fit_entry (init 10 ()) [(10, 0)])\<lparr>incomplete_nodes := []\<rparr>" "[(10, 0)]"]
    sc sel dn i
  show ?thesis by fastforce
qed

subsection \<open>C8: cluster ids\<close>







section \<open>Properties of spectral clustering\<close>

subsection \<open>C9: the label assignment is validated first\<close>




lemma ex_trace:
  "spectral_clustering_mod ex_library () 2 None () () 10 () ''kmeans'' True []
     = (Inr ((), (), Some ()), [''check_random_state'', ''spectral_embedding'', ''print'', ''k_means''])"
  by (simp add: spectral_clustering_mod_def ex_library_def)

subsection \<open>The passes over the columns in closed form\<close>





lemma columns_done_nth:
  assumes "r < length vectors" and "j < d"
  shows "columns_done vectors d k ! r ! j
           = (if j < k then reoriented vectors j (vectors ! r ! j) else vectors ! r ! j)"
  using assms by (simp add: columns_done_def)
















subsection \<open>C5: normalisation of the embedding\<close>




subsection \<open>The loops of \<^verbatim>\<open>discretize\<close>\<close>

declare search.simps [simp del] iterations.simps [simp del] restart_loop.simps [simp del]


lemma search_cases:
  obtains (break) "svd (t_svd (map argmax (dot vectors d R)) vectors d) = None"
      "search svd vectors d nmax R l k sr = (map argmax (dot vectors d R), False, sr)"
      "iterations svd vectors d nmax R l k = []"
  | (stop) U S Vh where "svd (t_svd (map argmax (dot vectors d R)) vectors d) = Some (U, S, Vh)"
      "\<bar>2 * (real (length vectors) - sum_list S) - l\<bar> < eps \<or> k + 1 > nmax"
      "search svd vectors d nmax R l k sr = (map argmax (dot vectors d R), True, sr + 1)"
      "iterations svd vectors d nmax R l k
         = [(map argmax (dot vectors d R), 2 * (real (length vectors) - sum_list S))]"
  | (continue) U S Vh where "svd (t_svd (map argmax (dot vectors d R)) vectors d) = Some (U, S, Vh)"
      "\<not> (\<bar>2 * (real (length vectors) - sum_list S) - l\<bar> < eps \<or> k + 1 > nmax)"
      "search svd vectors d nmax R l k sr
         = search svd vectors d nmax (dot (transposed d Vh) d (transposed d U))
             (2 * (real (length vectors) - sum_list S)) (k + 1) (sr + 1)"
      "iterations svd vectors d nmax R l k
         = (map argmax (dot vectors d R), 2 * (real (length vectors) - sum_list S))
             # iterations svd vectors d nmax (dot (transposed d Vh) d (transposed d U))
                 (2 * (real (length vectors) - sum_list S)) (k + 1)"
proof (cases "svd (t_svd (map argmax (dot vectors d R)) vectors d)")
  case None
  then show ?thesis
    by (intro break) (simp_all add: search.simps [of svd vectors d nmax R]
          iterations.simps [of svd vectors d nmax R] Let_def)
next
  case (Some r)
  then obtain U S Vh where r: "svd (t_svd (map argmax (dot vectors d R)) vectors d) = Some (U, S, Vh)"
    by (cases r) auto
  show ?thesis
  proof (cases "\<bar>2 * (real (length vectors) - sum_list S) - l\<bar> < eps \<or> k + 1 > nmax")
    case True
    with r show ?thesis
      by (intro stop [of U S Vh]) (simp_all add: search.simps [of svd vectors d nmax R]
            iterations.simps [of svd vectors d nmax R] Let_def)
  next
    case False
    with r show ?thesis
      by (intro continue [of U S Vh]) (simp_all add: search.simps [of svd vectors d nmax R]
            iterations.simps [of svd vectors d nmax R] Let_def)
  qed
qed


lemma search_iterations:
  assumes "search svd vectors d nmax R l k sr = (lbls, conv, sr')"
  shows "sr' = sr + int (length (iterations svd vectors d nmax R l k))
     \<and> (conv \<longrightarrow> iterations svd vectors d nmax R l k \<noteq> []
                  \<and> lbls = fst (last (iterations svd vectors d nmax R l k)))
     \<and> (\<forall>j < length (iterations svd vectors d nmax R l k).
           (\<bar>snd (iterations svd vectors d nmax R l k ! j)
               - (l # map snd (iterations svd vectors d nmax R l k)) ! j\<bar> < eps
             \<or> k + int j + 1 > nmax)
           \<longleftrightarrow> (conv \<and> j + 1 = length (iterations svd vectors d nmax R l k)))"
  using assms
proof (induction "nat (nmax - k)" arbitrary: R l k sr rule: less_induct)
  case less
  show ?case
  proof (cases rule: search_cases [of svd vectors d R nmax l k sr])
    case break
    with less.prems show ?thesis by simp
  next
    case (stop U S Vh)
    with less.prems show ?thesis by auto
  next
    case (continue U S Vh)
    let ?R = "dot (transposed d Vh) d (transposed d U)"
    let ?o = "2 * (real (length vectors) - sum_list S)"
    let ?its = "iterations svd vectors d nmax ?R ?o (k + 1)"
    have m: "nat (nmax - (k + 1)) < nat (nmax - k)" using continue(2) by simp
    have s: "search svd vectors d nmax ?R ?o (k + 1) (sr + 1) = (lbls, conv, sr')"
      using less.prems continue(3) by simp
    from less.hyps [OF m s]
    have 1: "sr' = sr + 1 + int (length ?its)"
      and 2: "conv \<longrightarrow> ?its \<noteq> [] \<and> lbls = fst (last ?its)"
      and 3: "\<And>j. j < length ?its \<Longrightarrow>
           (\<bar>snd (?its ! j) - (?o # map snd ?its) ! j\<bar> < eps \<or> k + 1 + int j + 1 > nmax)
           \<longleftrightarrow> (conv \<and> j + 1 = length ?its)"
      by blast+
    have a: "sr' = sr + int (length (iterations svd vectors d nmax R l k))"
      using 1 by (simp add: continue(4))
    have b: "conv \<longrightarrow> iterations svd vectors d nmax R l k \<noteq> []
                  \<and> lbls = fst (last (iterations svd vectors d nmax R l k))"
      using 2 by (simp add: continue(4))
    have c: "(\<bar>snd (iterations svd vectors d nmax R l k ! j)
               - (l # map snd (iterations svd vectors d nmax R l k)) ! j\<bar> < eps
             \<or> k + int j + 1 > nmax)
           \<longleftrightarrow> (conv \<and> j + 1 = length (iterations svd vectors d nmax R l k))"
      if j: "j < length (iterations svd vectors d nmax R l k)" for j
    proof (cases j)
      case 0
      have "\<not> (conv \<and> ?its = [])" using 2 by blast
      then show ?thesis using continue(2) by (simp add: continue(4) 0)
    next
      case (Suc j')
      then have "j' < length ?its" using j by (simp add: continue(4))
      from 3 [OF this] show ?thesis by (simp add: continue(4) Suc add.commute add.left_commute)
    qed
    from a b c show ?thesis by blast
  qed
qed


lemma search_failing:
  assumes "\<And>m. svd m = None"
  shows "\<exists>lb. search svd vectors d nmax R l k sr = (lb, False, sr)"
  by (cases rule: search_cases [of svd vectors d R nmax l k sr]) (simp_all add: assms)

lemma search_succeeding:
  assumes "\<And>m. svd m \<noteq> None"
  shows "\<exists>lb sr'. search svd vectors d nmax R l k sr = (lb, True, sr')"
proof (induction "nat (nmax - k)" arbitrary: R l k sr rule: less_induct)
  case less
  show ?case
  proof (cases rule: search_cases [of svd vectors d R nmax l k sr])
    case break
    with assms [of "t_svd (map argmax (dot vectors d R)) vectors d"] show ?thesis by simp
  next
    case (stop U S Vh)
    then show ?thesis by simp
  next
    case (continue U S Vh)
    have m: "nat (nmax - (k + 1)) < nat (nmax - k)" using continue(2) by simp
    from less.hyps [OF m] show ?thesis unfolding continue(3) .
  qed
qed

lemma restart_loop_failing:
  assumes "\<And>m. svd m = None" and "sr < max_svd_restarts" and "vectors \<noteq> []" and "0 < d"
  shows "restart_loop svd randint vectors d max_svd_restarts nmax fuel (sr, False, lb, rs) = None"
proof (induction fuel arbitrary: lb rs)
  case 0
  show ?case using assms(2) by (simp add: restart_loop.simps)
next
  case (Suc fuel)
  obtain k0 rs' where r: "randint rs (length vectors) = (k0, rs')" by (cases "randint rs (length vectors)")
  from search_failing [of svd vectors d nmax "initial_rotation vectors d k0" 0 0 sr, OF assms(1)]
  obtain lb' where s: "search svd vectors d nmax (initial_rotation vectors d k0) 0 0 sr = (lb', False, sr)"
    by blast
  show ?case using assms(2,3,4) by (subst restart_loop.simps) (simp add: r s Suc.IH)
qed

lemma restart_loop_succeeding:
  assumes "\<And>m. svd m \<noteq> None" and "0 < max_svd_restarts" and "vectors \<noteq> []" and "0 < d"
  shows "\<exists>lb. restart_loop svd randint vectors d max_svd_restarts nmax (Suc fuel) (0, False, lb0, rs)
            = Some (Inr lb)"
proof -
  obtain k0 rs' where r: "randint rs (length vectors) = (k0, rs')" by (cases "randint rs (length vectors)")
  from search_succeeding [of svd vectors d nmax "initial_rotation vectors d k0" 0 0 0, OF assms(1)]
  obtain lb' sr' where s: "search svd vectors d nmax (initial_rotation vectors d k0) 0 0 0 = (lb', True, sr')"
    by blast
  have "restart_loop svd randint vectors d max_svd_restarts nmax fuel (sr', True, lb', rs') = Some (Inr lb')"
    by (simp add: restart_loop.simps)
  then show ?thesis using assms(2,3,4) by (subst restart_loop.simps) (simp add: r s)
qed

lemma normalize_column_length:
  "normalize_column vectors i = Inr v \<Longrightarrow> length v = length vectors"
  by (auto simp: normalize_column_def Let_def split: list.splits if_splits)

lemma normalize_columns_length:
  "normalize_columns vectors cols = Inr v \<Longrightarrow> length v = length vectors"
proof (induction cols arbitrary: vectors)
  case Nil
  then show ?case by simp
next
  case (Cons i cols)
  then obtain w where w: "normalize_column vectors i = Inr w" and v: "normalize_columns w cols = Inr v"
    by (cases "normalize_column vectors i") simp_all
  from Cons.IH [OF v] normalize_column_length [OF w] show ?case by simp
qed

lemma normalize_vectors_length:
  "normalize_vectors vectors d = Inr v \<Longrightarrow> length v = length vectors"
  by (auto simp: normalize_vectors_def normalize_rows_def split: sum.splits
        dest: normalize_columns_length)

lemmas ex_discretize_defs = discretize_def normalize_vectors_def normalize_column_def
  normalize_rows_def linalg_norm_def column_def initial_rotation_def transposed_def dot_def
  dot_vec_def argmax_def argmin_def t_svd_def eps_def

subsection \<open>C4: restarts after a failed decomposition\<close>

text \<open>
  Claim C4. \<^verbatim>\<open>svd_restarts\<close> is incremented in the body of the \<^verbatim>\<open>try\<close>, after a
  decomposition that succeeded; the handler of \<^verbatim>\<open>LinAlgError\<close> leaves it as it is. The
  counter is therefore the number of successful decompositions: from any state of the inner
  loop, the value it has at the end is the value at the start plus the number of iterations
  in which the decomposition succeeded. When every decomposition fails and
  \<open>max_svd_restarts\<close> is positive, the counter stays at 0, the outer loop is entered again
  and again, and \<^verbatim>\<open>discretize\<close> neither returns nor raises, whatever the fuel: the
  restarts are not bounded by \<open>max_svd_restarts\<close>. When no decomposition fails,
  \<^verbatim>\<open>discretize\<close> returns labels from its first restart; when \<open>max_svd_restarts\<close> is not
  positive, it raises \<^verbatim>\<open>LinAlgError\<close> at once.
\<close>

theorem svd_failures_are_not_counted:
  "((\<forall>m. svd m = None) \<longrightarrow> 0 < max_svd_restarts \<longrightarrow> vectors \<noteq> [] \<longrightarrow> 0 < d \<longrightarrow>
      normalize_vectors vectors d = Inr v \<longrightarrow>
      discretize svd randint vectors d max_svd_restarts n_iter_max rs fuel = None)
   \<and> ((\<forall>m. svd m \<noteq> None) \<longrightarrow> 0 < max_svd_restarts \<longrightarrow> vectors \<noteq> [] \<longrightarrow> 0 < d \<longrightarrow>
      normalize_vectors vectors d = Inr v \<longrightarrow>
      (\<exists>lb. discretize svd randint vectors d max_svd_restarts n_iter_max rs (Suc fuel) = Some (Inr lb)))
   \<and> (max_svd_restarts \<le> 0 \<longrightarrow> normalize_vectors vectors d = Inr v \<longrightarrow>
      discretize svd randint vectors d max_svd_restarts n_iter_max rs fuel = Some (Inl LinAlgError))
   \<and> (search svd v d n_iter_max R l k sr = (lb', conv, sr') \<longrightarrow>
      sr' = sr + int (length (iterations svd v d n_iter_max R l k)))"
proof (intro conjI impI)
  assume a: "\<forall>m. svd m = None" "0 < max_svd_restarts" "vectors \<noteq> []" "0 < d"
    and n: "normalize_vectors vectors d = Inr v"
  have v: "v \<noteq> []" using normalize_vectors_length [OF n] a(3) by auto
  show "discretize svd randint vectors d max_svd_restarts n_iter_max rs fuel = None"
    using a(1) by (simp add: discretize_def n restart_loop_failing [OF _ a(2) v a(4)])
next
  assume a: "\<forall>m. svd m \<noteq> None" "0 < max_svd_restarts" "vectors \<noteq> []" "0 < d"
    and n: "normalize_vectors vectors d = Inr v"
  have v: "v \<noteq> []" using normalize_vectors_length [OF n] a(3) by auto
  from a(1) have s: "\<And>m. svd m \<noteq> None" by blast
  from restart_loop_succeeding [of svd, OF s a(2) v a(4)]
  show "\<exists>lb. discretize svd randint vectors d max_svd_restarts n_iter_max rs (Suc fuel) = Some (Inr lb)"
    by (simp add: discretize_def n)
next
  assume "max_svd_restarts \<le> 0" and n: "normalize_vectors vectors d = Inr v"
  then show "discretize svd randint vectors d max_svd_restarts n_iter_max rs fuel = Some (Inl LinAlgError)"
    by (simp add: discretize_def n restart_loop.simps)
next
  assume "search svd v d n_iter_max R l k sr = (lb', conv, sr')"
  from search_iterations [OF this]
  show "sr' = sr + int (length (iterations svd v d n_iter_max R l k))" by blast
qed

theorem svd_failures_are_not_counted_witness:
  "discretize (\<lambda>m. None) (\<lambda>rs n. (0, rs)) [[1]] 1 30 20 () 1000 = None
   \<and> (\<exists>lb. discretize (\<lambda>m. Some ([[1]], [0], [[1]])) (\<lambda>rs n. (0, rs)) [[1]] 1 30 20 () 1 = Some (Inr lb))
   \<and> discretize (\<lambda>m. None) (\<lambda>rs n. (0, rs)) [[1]] 1 0 20 () 1000 = Some (Inl LinAlgError)
   \<and> search (\<lambda>m. Some ([[1]], [0], [[1]])) [[- 1]] 1 20 [[- 1]] 0 0 0 = ([0], True, 2)
   \<and> length (iterations (\<lambda>m. Some ([[1]], [0], [[1]])) [[- 1]] 1 20 [[- 1]] 0 0) = 2"
proof -
  have n: "normalize_vectors [[1]] 1 = Inr [[- 1]]" by (simp add: ex_discretize_defs)
  have s: "search (\<lambda>m. Some ([[1]], [0], [[1]])) [[- 1]] 1 20 [[- 1]] 0 0 0 = ([0], True, 2)"
    by (simp add: search.simps ex_discretize_defs)
  note t = svd_failures_are_not_counted [of _ _ "[[1]]" 1 "[[- 1]]" "\<lambda>rs n. (0, rs)" 20 "()" _ 
      "[[- 1]]" 0 0 0 "[0]" True 2]
  have 1: "discretize (\<lambda>m. None) (\<lambda>rs n. (0, rs)) [[1]] 1 30 20 () 1000 = None"
    using t [of "\<lambda>m. None" 30 1000] n by simp
  have 2: "\<exists>lb. discretize (\<lambda>m. Some ([[1]], [0], [[1]])) (\<lambda>rs n. (0, rs)) [[1]] 1 30 20 () 1 = Some (Inr lb)"
    using t [of "\<lambda>m. Some ([[1]], [0], [[1]])" 30 0] n by simp
  have 3: "discretize (\<lambda>m. None) (\<lambda>rs n. (0, rs)) [[1]] 1 0 20 () 1000 = Some (Inl LinAlgError)"
    using t [of "\<lambda>m. None" 0 1000] n by simp
  have 4: "length (iterations (\<lambda>m. Some ([[1]], [0], [[1]])) [[- 1]] 1 20 [[- 1]] 0 0) = 2"
    using t [of "\<lambda>m. Some ([[1]], [0], [[1]])" 30 0] s by simp
  from 1 2 3 s 4 show ?thesis by blast
qed

subsection \<open>C6: objective and convergence\<close>



end
